theory Spec2Isabelle
  imports Complex_Main
begin

section \<open>The objects declared by steps/03_harmonize_data.py\<close>

text \<open>
  The script builds one \<open>UserDefinedFunction\<close> and a list of \<open>View\<close> objects with the
  client library's constructors and submits them to the warehouse. The constructor
  arguments are kept field by field; a field the source leaves at its default is not
  modelled. SQL and Python texts are kept character for character (a triple-quoted
  string keeps its line breaks and indentation).
\<close>

record Argument =
  arg_name :: string
  arg_datatype :: string

record ReturnDataType =
  ret_datatype :: string

record PythonFunction =
  runtime_version :: string
  packages :: "string list"
  handler :: string

record UserDefinedFunction =
  udf_name :: string
  arguments :: "Argument list"
  return_type :: ReturnDataType
  language_config :: PythonFunction
  body :: string

record ViewColumn =
  col_name :: string

record View =
  view_name :: string
  columns :: "ViewColumn list"
  query :: string

text \<open>The three members of the library's \<open>CreateMode\<close> enumeration.\<close>

datatype CreateMode = error_if_exists | or_replace | if_not_exists

definition map_city_to_airport_body :: string where
  \<open>map_city_to_airport_body =
     ''\<newline>'' @
     ''from snowflake.snowpark.files import SnowflakeFile\<newline>'' @
     ''from _snowflake import vectorized\<newline>'' @
     ''import pandas\<newline>'' @
     ''import json\<newline>'' @
     ''\<newline>'' @
     ''@vectorized(input=pandas.DataFrame)\<newline>'' @
     ''def main(df):\<newline>'' @
     ''    airport_list = json.loads(\<newline>'' @
     ''        SnowflakeFile.open("@bronze.raw/airport_list.json", 'r', require_scoped_url = False).read()\<newline>'' @
     ''    )\<newline>'' @
     ''    airports = {airport[3]: airport[1] for airport in airport_list}\<newline>'' @
     ''    return df[0].apply(lambda iata: airports.get(iata.upper()))\<newline>''\<close>

definition map_city_to_airport :: UserDefinedFunction where
  "map_city_to_airport = \<lparr>
     udf_name = ''get_city_for_airport'',
     arguments = [\<lparr>arg_name = ''iata'', arg_datatype = ''VARCHAR''\<rparr>],
     return_type = \<lparr>ret_datatype = ''VARCHAR''\<rparr>,
     language_config = \<lparr>
        runtime_version = ''3.11'',
        packages = [''snowflake-snowpark-python''],
        handler = ''main''\<rparr>,
     body = map_city_to_airport_body\<rparr>"

text \<open>
  The elements of the list \<open>pipeline\<close>, in the order of the source. The source leaves
  them anonymous; each is named here after its \<open>name\<close> argument.
\<close>

definition flight_emissions_query :: string where
  "flight_emissions_query =
     ''\<newline>'' @
     ''        select \<newline>'' @
     ''            departure_airport, \<newline>'' @
     ''            arrival_airport, \<newline>'' @
     ''            avg(estimated_co2_total_tonnes / seats) * 1000 as co2_emissions_kg_per_person\<newline>'' @
     ''        from oag_flight_emissions_data_sample.public.estimated_emissions_schedules_sample\<newline>'' @
     ''        where seats != 0 and estimated_co2_total_tonnes is not null\<newline>'' @
     ''        group by departure_airport, arrival_airport\<newline>'' @
     ''        ''"

definition flight_emissions :: View where
  "flight_emissions = \<lparr>
     view_name = ''flight_emissions'',
     columns = [
        \<lparr>col_name = ''departure_airport''\<rparr>,
        \<lparr>col_name = ''arrival_airport''\<rparr>,
        \<lparr>col_name = ''co2_emissions_kg_per_person''\<rparr>],
     query = flight_emissions_query\<rparr>"

definition flight_punctuality_query :: string where
  "flight_punctuality_query =
     ''\<newline>'' @
     ''        select \<newline>'' @
     ''            departure_iata_airport_code, \<newline>'' @
     ''            arrival_iata_airport_code, \<newline>'' @
     ''            count(\<newline>'' @
     ''                case when arrival_actual_ingate_timeliness IN ('OnTime', 'Early') THEN 1 END\<newline>'' @
     ''            ) / COUNT(*) * 100 as punctual_pct\<newline>'' @
     ''        from oag_flight_status_data_sample.public.flight_status_latest_sample\<newline>'' @
     ''        where arrival_actual_ingate_timeliness is not null\<newline>'' @
     ''        group by departure_iata_airport_code, arrival_iata_airport_code\<newline>'' @
     ''        ''"

definition flight_punctuality :: View where
  "flight_punctuality = \<lparr>
     view_name = ''flight_punctuality'',
     columns = [
        \<lparr>col_name = ''departure_iata_airport_code''\<rparr>,
        \<lparr>col_name = ''arrival_iata_airport_code''\<rparr>,
        \<lparr>col_name = ''punctual_pct''\<rparr>],
     query = flight_punctuality_query\<rparr>"

definition flights_from_home_query :: string where
  "flights_from_home_query =
     ''\<newline>'' @
     ''        select \<newline>'' @
     ''            departure_airport, \<newline>'' @
     ''            arrival_airport, \<newline>'' @
     ''            get_city_for_airport(arrival_airport) arrival_city,  \<newline>'' @
     ''            co2_emissions_kg_per_person, \<newline>'' @
     ''            punctual_pct,\<newline>'' @
     ''        from flight_emissions\<newline>'' @
     ''        join flight_punctuality \<newline>'' @
     ''            on departure_airport = departure_iata_airport_code \<newline>'' @
     ''            and arrival_airport = arrival_iata_airport_code\<newline>'' @
     ''        where departure_airport = (\<newline>'' @
     ''            select $1:airport \<newline>'' @
     ''            from @quickstart_common.public.quickstart_repo/branches/main/data/home.json \<newline>'' @
     ''                (FILE_FORMAT => bronze.json_format))\<newline>'' @
     ''        ''"

definition flights_from_home :: View where
  "flights_from_home = \<lparr>
     view_name = ''flights_from_home'',
     columns = [
        \<lparr>col_name = ''departure_airport''\<rparr>,
        \<lparr>col_name = ''arrival_airport''\<rparr>,
        \<lparr>col_name = ''arrival_city''\<rparr>,
        \<lparr>col_name = ''co2_emissions_kg_per_person''\<rparr>,
        \<lparr>col_name = ''punctual_pct''\<rparr>],
     query = flights_from_home_query\<rparr>"

definition weather_forecast_query :: string where
  "weather_forecast_query =
     ''\<newline>'' @
     ''        select \<newline>'' @
     ''            postal_code, \<newline>'' @
     ''            avg(avg_temperature_air_2m_f) avg_temperature_air_f, \<newline>'' @
     ''            avg(avg_humidity_relative_2m_pct) avg_relative_humidity_pct, \<newline>'' @
     ''            avg(avg_cloud_cover_tot_pct) avg_cloud_cover_pct, \<newline>'' @
     ''            avg(probability_of_precipitation_pct) precipitation_probability_pct\<newline>'' @
     ''        from global_weather__climate_data_for_bi.standard_tile.forecast_day\<newline>'' @
     ''        where country = 'US'\<newline>'' @
     ''        group by postal_code\<newline>'' @
     ''        ''"

definition weather_forecast :: View where
  "weather_forecast = \<lparr>
     view_name = ''weather_forecast'',
     columns = [
        \<lparr>col_name = ''postal_code''\<rparr>,
        \<lparr>col_name = ''avg_temperature_air_f''\<rparr>,
        \<lparr>col_name = ''avg_relative_humidity_pct''\<rparr>,
        \<lparr>col_name = ''avg_cloud_cover_pct''\<rparr>,
        \<lparr>col_name = ''precipitation_probability_pct''\<rparr>],
     query = weather_forecast_query\<rparr>"

definition major_us_cities_query :: string where
  "major_us_cities_query =
     ''\<newline>'' @
     ''        select \<newline>'' @
     ''            geo.geo_id, \<newline>'' @
     ''            geo.geo_name, \<newline>'' @
     ''            max(ts.value) total_population\<newline>'' @
     ''        from global_government.cybersyn.datacommons_timeseries ts\<newline>'' @
     ''        join global_government.cybersyn.geography_index geo \<newline>'' @
     ''            on ts.geo_id = geo.geo_id\<newline>'' @
     ''        join global_government.cybersyn.geography_relationships geo_rel \<newline>'' @
     ''            on geo_rel.related_geo_id = geo.geo_id\<newline>'' @
     ''        where true\<newline>'' @
     ''            and ts.variable_name = 'Total Population, census.gov'\<newline>'' @
     ''            and date >= '2020-01-01'\<newline>'' @
     ''            and geo.level = 'City'\<newline>'' @
     ''            and geo_rel.geo_id = 'country/USA'\<newline>'' @
     ''            and value > 100000\<newline>'' @
     ''        group by geo.geo_id, geo.geo_name\<newline>'' @
     ''        order by total_population desc\<newline>'' @
     ''        ''"

definition major_us_cities :: View where
  "major_us_cities = \<lparr>
     view_name = ''major_us_cities'',
     columns = [
        \<lparr>col_name = ''geo_id''\<rparr>,
        \<lparr>col_name = ''geo_name''\<rparr>,
        \<lparr>col_name = ''total_population''\<rparr>],
     query = major_us_cities_query\<rparr>"

definition zip_codes_in_city_query :: string where
  "zip_codes_in_city_query =
     ''\<newline>'' @
     ''        select \<newline>'' @
     ''            city.geo_id city_geo_id, \<newline>'' @
     ''            city.geo_name city_geo_name, \<newline>'' @
     ''            city.related_geo_id zip_geo_id, \<newline>'' @
     ''            city.related_geo_name zip_geo_name\<newline>'' @
     ''        from us_addresses__poi.cybersyn.geography_relationships country\<newline>'' @
     ''        join us_addresses__poi.cybersyn.geography_relationships city \<newline>'' @
     ''            on country.related_geo_id = city.geo_id\<newline>'' @
     ''        where true\<newline>'' @
     ''            and country.geo_id = 'country/USA'\<newline>'' @
     ''            and city.level = 'City'\<newline>'' @
     ''            and city.related_level = 'CensusZipCodeTabulationArea'\<newline>'' @
     ''        order by city_geo_id\<newline>'' @
     ''        ''"

definition zip_codes_in_city :: View where
  "zip_codes_in_city = \<lparr>
     view_name = ''zip_codes_in_city'',
     columns = [
        \<lparr>col_name = ''city_geo_id''\<rparr>,
        \<lparr>col_name = ''city_geo_name''\<rparr>,
        \<lparr>col_name = ''zip_geo_id''\<rparr>,
        \<lparr>col_name = ''zip_geo_name''\<rparr>],
     query = zip_codes_in_city_query\<rparr>"

definition weather_joined_with_major_cities_query :: string where
  "weather_joined_with_major_cities_query =
     ''\<newline>'' @
     ''        select \<newline>'' @
     ''            city.geo_id, \<newline>'' @
     ''            city.geo_name, \<newline>'' @
     ''            city.total_population,\<newline>'' @
     ''            avg(avg_temperature_air_f) avg_temperature_air_f,\<newline>'' @
     ''            avg(avg_relative_humidity_pct) avg_relative_humidity_pct,\<newline>'' @
     ''            avg(avg_cloud_cover_pct) avg_cloud_cover_pct,\<newline>'' @
     ''            avg(precipitation_probability_pct) precipitation_probability_pct\<newline>'' @
     ''        from major_us_cities city\<newline>'' @
     ''        join zip_codes_in_city zip on city.geo_id = zip.city_geo_id\<newline>'' @
     ''        join weather_forecast weather on zip.zip_geo_name = weather.postal_code\<newline>'' @
     ''        group by city.geo_id, city.geo_name, city.total_population\<newline>'' @
     ''        ''"

definition weather_joined_with_major_cities :: View where
  "weather_joined_with_major_cities = \<lparr>
     view_name = ''weather_joined_with_major_cities'',
     columns = [
        \<lparr>col_name = ''geo_id''\<rparr>,
        \<lparr>col_name = ''geo_name''\<rparr>,
        \<lparr>col_name = ''total_population''\<rparr>,
        \<lparr>col_name = ''avg_temperature_air_f''\<rparr>,
        \<lparr>col_name = ''avg_relative_humidity_pct''\<rparr>,
        \<lparr>col_name = ''avg_cloud_cover_pct''\<rparr>,
        \<lparr>col_name = ''precipitation_probability_pct''\<rparr>],
     query = weather_joined_with_major_cities_query\<rparr>"

definition pipeline :: "View list" where
  "pipeline = [
     flight_emissions,
     flight_punctuality,
     flights_from_home,
     weather_forecast,
     major_us_cities,
     zip_codes_in_city,
     weather_joined_with_major_cities]"

text \<open>
  The \<open>View\<close> built by the expression statement at the end of the file (lines 249 to 276),
  after the loop that creates the views. It is not an element of \<open>pipeline\<close>.
\<close>

definition attractions_query :: string where
  "attractions_query =
     ''\<newline>'' @
     ''    select\<newline>'' @
     ''        city.geo_id,\<newline>'' @
     ''        city.geo_name,\<newline>'' @
     ''        count(case when category_main = 'Aquarium' THEN 1 END) aquarium_cnt,\<newline>'' @
     ''        count(case when category_main = 'Zoo' THEN 1 END) zoo_cnt,\<newline>'' @
     ''        count(case when category_main = 'Korean Restaurant' THEN 1 END) korean_restaurant_cnt,\<newline>'' @
     ''    from us_addresses__poi.cybersyn.point_of_interest_index poi\<newline>'' @
     ''    join us_addresses__poi.cybersyn.point_of_interest_addresses_relationships poi_add \<newline>'' @
     ''        on poi_add.poi_id = poi.poi_id\<newline>'' @
     ''    join us_addresses__poi.cybersyn.us_addresses address \<newline>'' @
     ''        on address.address_id = poi_add.address_id\<newline>'' @
     ''    join major_us_cities city on city.geo_id = address.id_city\<newline>'' @
     ''    where true\<newline>'' @
     ''        and category_main in ('Aquarium', 'Zoo', 'Korean Restaurant')\<newline>'' @
     ''        and id_country = 'country/USA'\<newline>'' @
     ''    group by city.geo_id, city.geo_name\<newline>'' @
     ''    ''"

definition attractions :: View where
  "attractions = \<lparr>
     view_name = ''attractions'',
     columns = [
        \<lparr>col_name = ''geo_id''\<rparr>,
        \<lparr>col_name = ''geo_name''\<rparr>,
        \<lparr>col_name = ''aquarium_cnt''\<rparr>,
        \<lparr>col_name = ''zoo_cnt''\<rparr>,
        \<lparr>col_name = ''korean_restaurant_cnt''\<rparr>],
     query = attractions_query\<rparr>"

section \<open>The warehouse and the client API\<close>

text \<open>
  The warehouse is an external service; the script reaches it through the client
  library only. What the claims need of it is written down here as a model: a
  warehouse holds objects, each identified by its database, its schema and its key
  (a view by its name, a function by its name and argument types), and a create
  request either is rejected by the service with an error, which changes no object,
  or takes effect according to its \<open>CreateMode\<close>. Which requests the service rejects
  (bad SQL, a missing database, a runtime fault) is not decided by the script; it is
  a parameter of the model, as is the outcome of opening the session.
\<close>

datatype key = StrKey string | IntKey nat

datatype error =
  KeyError key
| IndexError
| TypeError
| AttributeError
| PlatformError string

datatype resource = FunctionObject UserDefinedFunction | ViewObject View

datatype object_key = FunctionKey string "string list" | ViewKey string

fun key_of :: "resource \<Rightarrow> object_key" where
  "key_of (FunctionObject f) = FunctionKey (udf_name f) (map arg_datatype (arguments f))"
| "key_of (ViewObject v) = ViewKey (view_name v)"

record schema_ref =
  database :: string
  schema :: string

type_synonym object_id = "schema_ref \<times> object_key"

type_synonym warehouse = "object_id \<rightharpoonup> resource"

record request =
  target :: schema_ref
  payload :: resource
  mode :: CreateMode

definition object_id :: "request \<Rightarrow> object_id" where
  "object_id r = (target r, key_of (payload r))"

text \<open>
  The state a run passes along: the objects of the warehouse and the log of the create
  requests sent so far (a rejected request is logged too: it was sent).
\<close>

record world =
  objects :: warehouse
  calls :: "request list"

record platform =
  connect :: "error option"
  rejects :: "request \<Rightarrow> warehouse \<Rightarrow> error option"

definition create :: "platform \<Rightarrow> request \<Rightarrow> world \<Rightarrow> (error + unit) \<times> world" where
  "create p r s =
     (let s' = s\<lparr>calls := calls s @ [r]\<rparr>; w = objects s; k = object_id r in
      case rejects p r w of
        Some e \<Rightarrow> (Inl e, s')
      | None \<Rightarrow>
          (case mode r of
             or_replace \<Rightarrow> (Inr (), s'\<lparr>objects := w(k \<mapsto> payload r)\<rparr>)
           | if_not_exists \<Rightarrow>
               (Inr (), if w k = None then s'\<lparr>objects := w(k \<mapsto> payload r)\<rparr> else s')
           | error_if_exists \<Rightarrow>
               (if w k = None then (Inr (), s'\<lparr>objects := w(k \<mapsto> payload r)\<rparr>)
                else (Inl (PlatformError ''Conflict''), s'))))"

text \<open>\<open>schema.user_defined_functions.create(f, mode=m)\<close> and \<open>schema.views.create(v, mode=m)\<close>.\<close>

definition user_defined_functions_create ::
  "platform \<Rightarrow> schema_ref \<Rightarrow> UserDefinedFunction \<Rightarrow> CreateMode \<Rightarrow> world \<Rightarrow> (error + unit) \<times> world" where
  "user_defined_functions_create p sch f m =
     create p \<lparr>target = sch, payload = FunctionObject f, mode = m\<rparr>"

definition views_create ::
  "platform \<Rightarrow> schema_ref \<Rightarrow> View \<Rightarrow> CreateMode \<Rightarrow> world \<Rightarrow> (error + unit) \<times> world" where
  "views_create p sch v m =
     create p \<lparr>target = sch, payload = ViewObject v, mode = m\<rparr>"

section \<open>The script\<close>

text \<open>
  The value of the variable \<open>silver_schema\<close> when the environment variable
  \<open>environment\<close> holds \<open>x\<close>: the collections \<open>root.databases[...]\<close> and \<open>.schemas[...]\<close>
  build a reference and send nothing.
\<close>

definition silver_schema :: "string \<Rightarrow> schema_ref" where
  "silver_schema x = \<lparr>database = ''quickstart_'' @ x, schema = ''silver''\<rparr>"

text \<open>The loop \<open>for view in pipeline\<close>: an exception of a create call ends the run.\<close>

fun create_views :: "platform \<Rightarrow> schema_ref \<Rightarrow> View list \<Rightarrow> world \<Rightarrow> (error + unit) \<times> world" where
  "create_views p sch [] s = (Inr (), s)"
| "create_views p sch (view # rest) s =
     (case views_create p sch view or_replace s of
        (Inl e, s') \<Rightarrow> (Inl e, s')
      | (Inr u, s') \<Rightarrow> create_views p sch rest s')"

text \<open>
  The module's statements in their order: the session (line 239), the lookup
  \<open>os.environ['environment']\<close> (line 242), the function (lines 243 to 245), the loop
  (lines 246 and 247), and the expression statement that builds a one-element tuple
  holding the \<open>attractions\<close> view and drops it (lines 249 to 276).
\<close>

definition script :: "platform \<Rightarrow> (string \<rightharpoonup> string) \<Rightarrow> world \<Rightarrow> (error + unit) \<times> world" where
  "script p environ s =
     (case connect p of
        Some e \<Rightarrow> (Inl e, s)
      | None \<Rightarrow>
          (case environ ''environment'' of
             None \<Rightarrow> (Inl (KeyError (StrKey ''environment'')), s)
           | Some x \<Rightarrow>
               (case user_defined_functions_create p (silver_schema x) map_city_to_airport or_replace s of
                  (Inl e, s1) \<Rightarrow> (Inl e, s1)
                | (Inr u, s1) \<Rightarrow>
                    (case create_views p (silver_schema x) pipeline s1 of
                       (Inl e, s2) \<Rightarrow> (Inl e, s2)
                     | (Inr u, s2) \<Rightarrow> (let dropped = [attractions] in (Inr (), s2))))))"

text \<open>A run starts with an empty log.\<close>

definition start :: "warehouse \<Rightarrow> world" where
  "start w = \<lparr>objects = w, calls = []\<rparr>"

text \<open>
  For the statements about a run: the requests of a complete run in program order,
  and sending a list of requests until one raises.
\<close>

definition view_request :: "schema_ref \<Rightarrow> View \<Rightarrow> request" where
  "view_request sch v = \<lparr>target = sch, payload = ViewObject v, mode = or_replace\<rparr>"

definition requests :: "string \<Rightarrow> request list" where
  "requests x =
     \<lparr>target = silver_schema x, payload = FunctionObject map_city_to_airport, mode = or_replace\<rparr>
     # map (view_request (silver_schema x)) pipeline"

fun issue :: "platform \<Rightarrow> request list \<Rightarrow> world \<Rightarrow> (error + unit) \<times> world" where
  "issue p [] s = (Inr (), s)"
| "issue p (r # rs) s =
     (case create p r s of
        (Inl e, s') \<Rightarrow> (Inl e, s')
      | (Inr u, s') \<Rightarrow> issue p rs s')"

section \<open>The handler of get_city_for_airport\<close>

text \<open>
  The body of the function is Python text that the warehouse runs; its handler
  \<open>main\<close> is modelled here. A value that \<open>json.loads\<close> returns is a \<open>json\<close>; the type
  \<open>'c\<close> stands for the code points of a Python \<open>str\<close>. A number keeps its literal
  (the handler computes nothing with it), \<open>JObject\<close> holds the items of a dict in
  insertion order, and \<open>JNull\<close> is Python's \<open>None\<close>.
\<close>

datatype 'c json =
  JNull
| JBool bool
| JNumber string
| JString "'c list"
| JArray "'c json list"
| JObject "('c list \<times> 'c json) list"

text \<open>\<open>x[i]\<close> for a literal index \<open>i\<close> that is not negative.\<close>

fun getitem :: "'c json \<Rightarrow> nat \<Rightarrow> error + 'c json" where
  "getitem (JArray xs) i = (if i < length xs then Inr (xs ! i) else Inl IndexError)"
| "getitem (JString s) i = (if i < length s then Inr (JString [s ! i]) else Inl IndexError)"
| "getitem (JObject kvs) i = Inl (KeyError (IntKey i))"
| "getitem JNull i = Inl TypeError"
| "getitem (JBool b) i = Inl TypeError"
| "getitem (JNumber n) i = Inl TypeError"

text \<open>The elements that \<open>for airport in x\<close> runs through.\<close>

fun iterate :: "'c json \<Rightarrow> error + 'c json list" where
  "iterate (JArray xs) = Inr xs"
| "iterate (JString s) = Inr (map (\<lambda>c. JString [c]) s)"
| "iterate (JObject kvs) = Inr (map (\<lambda>kv. JString (fst kv)) kvs)"
| "iterate JNull = Inl TypeError"
| "iterate (JBool b) = Inl TypeError"
| "iterate (JNumber n) = Inl TypeError"

text \<open>A list and a dict cannot be the key of a dict.\<close>

fun hashable :: "'c json \<Rightarrow> bool" where
  "hashable (JArray xs) = False"
| "hashable (JObject kvs) = False"
| "hashable JNull = True"
| "hashable (JBool b) = True"
| "hashable (JNumber n) = True"
| "hashable (JString s) = True"

text \<open>
  The comprehension \<open>{airport[3]: airport[1] for airport in airport_list}\<close>, as the
  list of its stores in order: for each element the key, then the value, then the
  store, which raises on a key that cannot be hashed.
\<close>

fun airports_of :: "'c json list \<Rightarrow> error + ('c json \<times> 'c json) list" where
  "airports_of [] = Inr []"
| "airports_of (airport # rest) =
     (case getitem airport 3 of
        Inl e \<Rightarrow> Inl e
      | Inr k \<Rightarrow>
          (case getitem airport 1 of
             Inl e \<Rightarrow> Inl e
           | Inr v \<Rightarrow>
               if \<not> hashable k then Inl TypeError
               else (case airports_of rest of
                       Inl e \<Rightarrow> Inl e
                     | Inr stores \<Rightarrow> Inr ((k, v) # stores))))"

text \<open>
  \<open>airports.get(k)\<close> for a \<open>str\<close> \<open>k\<close>: the value of the last store under a key equal to
  \<open>k\<close>, and \<open>None\<close> when there is none. Only a \<open>str\<close> with the same code points is equal
  to a \<open>str\<close>.
\<close>

definition dict_get :: "('c json \<times> 'c json) list \<Rightarrow> 'c list \<Rightarrow> 'c json" where
  "dict_get stores k = (case map_of (rev stores) (JString k) of None \<Rightarrow> JNull | Some v \<Rightarrow> v)"

text \<open>
  \<open>lambda iata: airports.get(iata.upper())\<close>. A row holds a \<open>str\<close> or, for SQL NULL,
  \<open>None\<close>, which has no attribute \<open>upper\<close>. The method \<open>str.upper\<close> is Python's; the model
  takes it as the parameter \<open>upper\<close>.
\<close>

definition lookup :: "('c list \<Rightarrow> 'c list) \<Rightarrow> ('c json \<times> 'c json) list \<Rightarrow> 'c list option \<Rightarrow> error + 'c json" where
  "lookup upper airports iata =
     (case iata of
        None \<Rightarrow> Inl AttributeError
      | Some s \<Rightarrow> Inr (dict_get airports (upper s)))"

text \<open>\<open>Series.apply\<close>: the function on each row in order; the first exception ends it.\<close>

fun apply_series :: "('a \<Rightarrow> error + 'b) \<Rightarrow> 'a list \<Rightarrow> error + 'b list" where
  "apply_series f [] = Inr []"
| "apply_series f (x # xs) =
     (case f x of
        Inl e \<Rightarrow> Inl e
      | Inr y \<Rightarrow> (case apply_series f xs of Inl e \<Rightarrow> Inl e | Inr ys \<Rightarrow> Inr (y # ys)))"

text \<open>
  The handler. \<open>loaded\<close> is the outcome of reading and parsing the staged file
  \<open>@bronze.raw/airport_list.json\<close> (an error when the file is missing or is not JSON);
  \<open>df\<close> is column 0 of the batch.
\<close>

definition main :: "('c list \<Rightarrow> 'c list) \<Rightarrow> error + 'c json \<Rightarrow> 'c list option list \<Rightarrow> error + 'c json list" where
  "main upper loaded df =
     (case loaded of
        Inl e \<Rightarrow> Inl e
      | Inr airport_list \<Rightarrow>
          (case iterate airport_list of
             Inl e \<Rightarrow> Inl e
           | Inr entries \<Rightarrow>
               (case airports_of entries of
                  Inl e \<Rightarrow> Inl e
                | Inr airports \<Rightarrow> apply_series (lookup upper airports) df)))"

text \<open>\<open>str.upper\<close> on ASCII text, to run the handler on concrete rows.\<close>

definition ascii_upper :: "string \<Rightarrow> string" where
  "ascii_upper s =
     map (\<lambda>c. case map_of (zip ''abcdefghijklmnopqrstuvwxyz'' ''ABCDEFGHIJKLMNOPQRSTUVWXYZ'') c of
                 None \<Rightarrow> c
               | Some u \<Rightarrow> u) s"

section \<open>The objects a query names\<close>

text \<open>
  The words of a SQL text: the maximal runs of letters, digits, underscore, dollar
  and dot outside the string literals. A qualified name such as
  \<open>global_government.cybersyn.geography_index\<close> is one word. A view refers to an
  object when the object's name is a word of its query.
\<close>

definition ident_char :: "char \<Rightarrow> bool" where
  "ident_char c \<longleftrightarrow>
     c \<in> set ''abcdefghijklmnopqrstuvwxyzABCDEFGHIJKLMNOPQRSTUVWXYZ0123456789_$.''"

fun scan_words :: "string \<Rightarrow> bool \<Rightarrow> string \<Rightarrow> string list" where
  "scan_words cur lit [] = (if cur = [] then [] else [rev cur])"
| "scan_words cur lit (c # cs) =
     (if lit then scan_words cur (c \<noteq> CHR 0x27) cs
      else if ident_char c then scan_words (c # cur) False cs
      else (if cur = [] then [] else [rev cur]) @ scan_words [] (c = CHR 0x27) cs)"

definition sql_words :: "string \<Rightarrow> string list" where
  "sql_words q = scan_words [] False q"

definition refers_to :: "View \<Rightarrow> string \<Rightarrow> bool" where
  "refers_to v n \<longleftrightarrow> n \<in> set (sql_words (query v))"

fun resource_name :: "resource \<Rightarrow> string" where
  "resource_name (FunctionObject f) = udf_name f"
| "resource_name (ViewObject v) = view_name v"

section \<open>The query of flight_emissions\<close>

text \<open>
  The query of the view \<open>flight_emissions\<close> read as a function of the rows of
  \<open>estimated_emissions_schedules_sample\<close>: the \<open>where\<close> clause keeps a row when its
  predicate is true (in SQL's three-valued logic, where \<open>None\<close> is NULL), the kept rows
  are grouped by the two airports, and each group yields the average of the
  quotient, times 1000. A quotient with a divisor of zero is an error of the engine;
  \<open>avg\<close> skips NULL and is NULL when nothing is left.
\<close>

record emissions_row =
  departure_airport :: "string option"
  arrival_airport :: "string option"
  seats :: "rat option"
  estimated_co2_total_tonnes :: "rat option"

definition sql_ne :: "rat option \<Rightarrow> rat option \<Rightarrow> bool option" where
  "sql_ne a b = (case a of None \<Rightarrow> None | Some x \<Rightarrow> (case b of None \<Rightarrow> None | Some y \<Rightarrow> Some (x \<noteq> y)))"

definition sql_is_not_null :: "'a option \<Rightarrow> bool option" where
  "sql_is_not_null a = Some (a \<noteq> None)"

definition sql_and :: "bool option \<Rightarrow> bool option \<Rightarrow> bool option" where
  "sql_and a b =
     (if a = Some False \<or> b = Some False then Some False
      else if a = Some True \<and> b = Some True then Some True
      else None)"

definition sql_div :: "rat option \<Rightarrow> rat option \<Rightarrow> error + rat option" where
  "sql_div a b =
     (case a of
        None \<Rightarrow> Inr None
      | Some x \<Rightarrow>
          (case b of
             None \<Rightarrow> Inr None
           | Some y \<Rightarrow> if y = 0 then Inl (PlatformError ''Division by zero'') else Inr (Some (x / y))))"

definition sql_avg :: "rat option list \<Rightarrow> rat option" where
  "sql_avg vs =
     (let xs = [x. Some x \<leftarrow> vs] in
      if xs = [] then None else Some (sum_list xs / of_nat (length xs)))"

text \<open>\<open>where seats != 0 and estimated_co2_total_tonnes is not null\<close>\<close>

definition where_clause :: "emissions_row \<Rightarrow> bool option" where
  "where_clause r = sql_and (sql_ne (seats r) (Some 0)) (sql_is_not_null (estimated_co2_total_tonnes r))"

definition kept :: "emissions_row list \<Rightarrow> emissions_row list" where
  "kept table = filter (\<lambda>r. where_clause r = Some True) table"

text \<open>\<open>estimated_co2_total_tonnes / seats\<close>\<close>

definition per_seat :: "emissions_row \<Rightarrow> error + rat option" where
  "per_seat r = sql_div (estimated_co2_total_tonnes r) (seats r)"

definition group_key :: "emissions_row \<Rightarrow> string option \<times> string option" where
  "group_key r = (departure_airport r, arrival_airport r)"

text \<open>One output row: \<open>avg(estimated_co2_total_tonnes / seats) * 1000\<close> over a group.\<close>

definition aggregate ::
  "emissions_row list \<Rightarrow> string option \<times> string option \<Rightarrow>
   error + (string option \<times> string option \<times> rat option)" where
  "aggregate rows g =
     (case apply_series per_seat (filter (\<lambda>r. group_key r = g) rows) of
        Inl e \<Rightarrow> Inl e
      | Inr qs \<Rightarrow> Inr (fst g, snd g, map_option (\<lambda>a. a * 1000) (sql_avg qs)))"

definition flight_emissions_rows ::
  "emissions_row list \<Rightarrow> error + (string option \<times> string option \<times> rat option) list" where
  "flight_emissions_rows table =
     apply_series (aggregate (kept table)) (remdups (map group_key (kept table)))"

section \<open>Runs\<close>

text \<open>The objects of the warehouse after a run from the warehouse \<open>w\<close>.\<close>

definition run :: "platform \<Rightarrow> (string \<rightharpoonup> string) \<Rightarrow> warehouse \<Rightarrow> warehouse" where
  "run p environ w = objects (snd (script p environ (start w)))"

text \<open>A service that opens the session and accepts every request, and an environment.\<close>

definition accepting :: platform where
  "accepting = \<lparr>connect = None, rejects = (\<lambda>r w. None)\<rparr>"

definition dev :: "string \<rightharpoonup> string" where
  "dev = [''environment'' \<mapsto> ''dev'']"

text \<open>
  The objects the script names: the function with its one argument type and the seven
  views of \<open>pipeline\<close>, in the schema that the environment variable selects.
\<close>

definition script_objects :: "string \<Rightarrow> object_id list" where
  "script_objects x =
     (silver_schema x, FunctionKey ''get_city_for_airport'' [''VARCHAR''])
     # map (\<lambda>n. (silver_schema x, ViewKey n))
         [''flight_emissions'', ''flight_punctuality'', ''flights_from_home'',
          ''weather_forecast'', ''major_us_cities'', ''zip_codes_in_city'',
          ''weather_joined_with_major_cities'']"

fun is_function :: "resource \<Rightarrow> bool" where
  "is_function (FunctionObject f) = True"
| "is_function (ViewObject v) = False"

text \<open>
  A service that rejects the view \<open>flights_from_home\<close> and accepts every other request,
  and an object of the warehouse that the script does not name.
\<close>

definition failing :: platform where
  "failing = \<lparr>connect = None,
     rejects = (\<lambda>r w. if resource_name (payload r) = ''flights_from_home''
                        then Some (PlatformError ''SQL compilation error'') else None)\<rparr>"

definition other_view :: object_id where
  "other_view = (silver_schema ''dev'', ViewKey ''attractions'')"

section \<open>Sending requests\<close>


lemma create_calls: "calls (snd (create p r s)) = calls s @ [r]"
  by (simp add: create_def Let_def split: option.splits CreateMode.splits)

lemma create_frame: "object_id r \<noteq> k \<Longrightarrow> objects (snd (create p r s)) k = objects s k"
  by (simp add: create_def Let_def split: option.splits CreateMode.splits)

lemma create_raises: "fst (create p r s) = Inl e \<Longrightarrow> objects (snd (create p r s)) = objects s"
  by (auto simp add: create_def Let_def split: option.splits CreateMode.splits if_splits)

lemma create_or_replace:
  "mode r = or_replace \<Longrightarrow>
   create p r s =
     (case rejects p r (objects s) of
        Some e \<Rightarrow> (Inl e, s\<lparr>calls := calls s @ [r]\<rparr>)
      | None \<Rightarrow> (Inr (), s\<lparr>calls := calls s @ [r], objects := (objects s)(object_id r \<mapsto> payload r)\<rparr>))"
  by (simp add: create_def Let_def split: option.splits)

lemma create_views_issue:
  "create_views p sch vs s = issue p (map (view_request sch) vs) s"
  by (induction vs arbitrary: s) (simp_all add: views_create_def view_request_def split: prod.splits sum.splits)

lemma script_issue:
  "connect p = None \<Longrightarrow> environ ''environment'' = Some x \<Longrightarrow>
   script p environ s = issue p (requests x) s"
  by (simp add: script_def requests_def user_defined_functions_create_def create_views_issue
      split: prod.splits sum.splits)

lemma issue_append:
  "issue p (xs @ ys) s =
     (case issue p xs s of (Inl e, s') \<Rightarrow> (Inl e, s') | (Inr u, s') \<Rightarrow> issue p ys s')"
  by (induction xs arbitrary: s) (simp_all split: prod.splits sum.splits)

lemma issue_calls_subset:
  "set (calls (snd (issue p rs s))) \<subseteq> set (calls s) \<union> set rs"
proof (induction rs arbitrary: s)
  case Nil
  then show ?case by simp
next
  case (Cons r rs)
  show ?case
  proof (cases "create p r s")
    case (Pair res s')
    have c: "calls s' = calls s @ [r]" using create_calls [of p r s] Pair by simp
    show ?thesis
    proof (cases res)
      case (Inl e)
      with Pair c show ?thesis by auto
    next
      case (Inr u)
      with Pair c Cons.IH [of s'] show ?thesis by auto
    qed
  qed
qed

lemma issue_frame:
  "\<forall>r\<in>set rs. object_id r \<noteq> k \<Longrightarrow> objects (snd (issue p rs s)) k = objects s k"
proof (induction rs arbitrary: s)
  case Nil
  then show ?case by simp
next
  case (Cons r rs)
  show ?case
  proof (cases "create p r s")
    case (Pair res s')
    have f: "objects s' k = objects s k" using create_frame [of r k p s] Pair Cons.prems by simp
    show ?thesis
    proof (cases res)
      case (Inl e)
      with Pair f show ?thesis by simp
    next
      case (Inr u)
      with Pair f Cons.IH [of s'] Cons.prems show ?thesis by simp
    qed
  qed
qed


lemma create_stable:
  assumes "mode r = or_replace" and "objects s (object_id r) = Some (payload r)"
  shows "objects (snd (create p r s)) = objects s"
  using assms by (auto simp add: create_or_replace split: option.splits)

lemma issue_stable:
  "\<forall>r\<in>set rs. mode r = or_replace \<and> objects s (object_id r) = Some (payload r) \<Longrightarrow>
   objects (snd (issue p rs s)) = objects s"
proof (induction rs arbitrary: s)
  case Nil
  then show ?case by simp
next
  case (Cons r rs)
  show ?case
  proof (cases "create p r s")
    case (Pair res s')
    have f: "objects s' = objects s" using create_stable [of r s p] Pair Cons.prems by simp
    show ?thesis
    proof (cases res)
      case (Inl e)
      with Pair f show ?thesis by simp
    next
      case (Inr u)
      with Pair f Cons.IH [of s'] Cons.prems show ?thesis by simp
    qed
  qed
qed

lemma create_done:
  assumes "mode r = or_replace" and "create p r s = (Inr u, s')"
  shows "objects s' = (objects s)(object_id r \<mapsto> payload r)"
  using assms by (auto simp add: create_or_replace split: option.splits)

lemma issue_done:
  "issue p rs s = (Inr u, s') \<Longrightarrow> distinct (map object_id rs) \<Longrightarrow>
   \<forall>r\<in>set rs. mode r = or_replace \<Longrightarrow>
   \<forall>r\<in>set rs. objects s' (object_id r) = Some (payload r)"
proof (induction rs arbitrary: s)
  case Nil
  then show ?case by simp
next
  case (Cons r rs)
  from Cons.prems(1) obtain s1 where c: "create p r s = (Inr (), s1)" and i: "issue p rs s1 = (Inr u, s')"
    by (auto split: prod.splits sum.splits)
  have o1: "objects s1 (object_id r) = Some (payload r)"
    using create_done [OF _ c] Cons.prems(3) by simp
  have nr: "object_id r \<notin> object_id ` set rs" using Cons.prems(2) by simp
  have "\<forall>q\<in>set rs. object_id q \<noteq> object_id r"
  proof (intro ballI notI)
    fix q assume "q \<in> set rs" and "object_id q = object_id r"
    then have "object_id r \<in> object_id ` set rs" by (metis imageI)
    with nr show False by simp
  qed
  then have "objects (snd (issue p rs s1)) (object_id r) = objects s1 (object_id r)"
    by (rule issue_frame)
  with i o1 have "objects s' (object_id r) = Some (payload r)" by simp
  moreover have "\<forall>q\<in>set rs. objects s' (object_id q) = Some (payload q)"
    using Cons.IH [OF i] Cons.prems by simp
  ultimately show ?case by simp
qed

lemma issue_raises:
  "fst (issue p rs s) = Inl e \<longleftrightarrow>
   (\<exists>done r rest mid. rs = done @ r # rest \<and> issue p done s = (Inr (), mid) \<and>
      fst (create p r mid) = Inl e)"
proof (induction rs arbitrary: s)
  case Nil
  then show ?case by simp
next
  case (Cons a rs)
  show ?case
  proof (cases "create p a s")
    case (Pair res s')
    show ?thesis
    proof (cases res)
      case (Inl e')
      show ?thesis
      proof
        assume "fst (issue p (a # rs) s) = Inl e"
        with Pair Inl have "fst (create p a s) = Inl e" by simp
        then have "a # rs = [] @ a # rs \<and> issue p [] s = (Inr (), s) \<and> fst (create p a s) = Inl e"
          by simp
        then show "\<exists>done r rest mid. a # rs = done @ r # rest \<and> issue p done s = (Inr (), mid) \<and>
          fst (create p r mid) = Inl e" by blast
      next
        assume "\<exists>done r rest mid. a # rs = done @ r # rest \<and> issue p done s = (Inr (), mid) \<and>
          fst (create p r mid) = Inl e"
        then obtain dn r rest mid where d: "a # rs = dn @ r # rest"
          and i: "issue p dn s = (Inr (), mid)" and c: "fst (create p r mid) = Inl e" by blast
        show "fst (issue p (a # rs) s) = Inl e"
        proof (cases dn)
          case Nil
          with d i c Pair Inl show ?thesis by auto
        next
          case (Cons b dn')
          with d have "b = a" by simp
          with Cons i Pair Inl show ?thesis by simp
        qed
      qed
    next
      case (Inr u)
      have step: "issue p (a # rs) s = issue p rs s'" using Pair Inr by simp
      show ?thesis
      proof
        assume "fst (issue p (a # rs) s) = Inl e"
        with step Cons.IH [of s'] obtain dn r rest mid where d: "rs = dn @ r # rest"
          and i: "issue p dn s' = (Inr (), mid)" and c: "fst (create p r mid) = Inl e" by auto
        have "a # rs = (a # dn) @ r # rest \<and> issue p (a # dn) s = (Inr (), mid) \<and> fst (create p r mid) = Inl e"
          using d i c Pair Inr by simp
        then show "\<exists>done r rest mid. a # rs = done @ r # rest \<and> issue p done s = (Inr (), mid) \<and>
          fst (create p r mid) = Inl e" by blast
      next
        assume "\<exists>done r rest mid. a # rs = done @ r # rest \<and> issue p done s = (Inr (), mid) \<and>
          fst (create p r mid) = Inl e"
        then obtain dn r rest mid where d: "a # rs = dn @ r # rest"
          and i: "issue p dn s = (Inr (), mid)" and c: "fst (create p r mid) = Inl e" by blast
        show "fst (issue p (a # rs) s) = Inl e"
        proof (cases dn)
          case Nil
          with d i c Pair Inr show ?thesis by auto
        next
          case (Cons b dn')
          with d have ba: "b = a" and r: "rs = dn' @ r # rest" by simp_all
          from Cons ba i Pair Inr have "issue p dn' s' = (Inr (), mid)" by simp
          with r c Cons.IH [of s'] step show ?thesis by auto
        qed
      qed
    qed
  qed
qed



lemma issue_calls_prefix:
  "\<exists>n. (rs \<noteq> [] \<longrightarrow> 0 < n) \<and> n \<le> length rs \<and> calls (snd (issue p rs s)) = calls s @ take n rs"
proof (induction rs arbitrary: s)
  case Nil
  then show ?case by simp
next
  case (Cons r rs)
  show ?case
  proof (cases "create p r s")
    case (Pair res s')
    have c: "calls s' = calls s @ [r]" using create_calls [of p r s] Pair by simp
    show ?thesis
    proof (cases res)
      case (Inl e)
      with Pair c have "calls (snd (issue p (r # rs) s)) = calls s @ take (Suc 0) (r # rs)" by simp
      then show ?thesis by (metis Suc_leI length_Cons zero_less_Suc)
    next
      case (Inr u)
      from Cons.IH [of s'] obtain n where n: "n \<le> length rs"
        and cs: "calls (snd (issue p rs s')) = calls s' @ take n rs" by blast
      from Pair Inr cs c have "calls (snd (issue p (r # rs) s)) = calls s @ take (Suc n) (r # rs)"
        by simp
      with n show ?thesis by (metis Suc_le_mono length_Cons zero_less_Suc)
    qed
  qed
qed

lemma issue_accepted:
  "\<forall>r\<in>set rs. rejects p r = (\<lambda>w. None) \<and> mode r = or_replace \<Longrightarrow>
   fst (issue p rs s) = Inr () \<and> calls (snd (issue p rs s)) = calls s @ rs"
proof (induction rs arbitrary: s)
  case Nil
  then show ?case by simp
next
  case (Cons r rs)
  have "fst (create p r s) = Inr ()" using Cons.prems by (simp add: create_or_replace)
  then obtain s' where c: "create p r s = (Inr (), s')" by (metis prod.collapse)
  have "calls s' = calls s @ [r]" using create_calls [of p r s] c by simp
  with c Cons.IH [of s'] Cons.prems show ?case by simp
qed

lemma requests_mode: "\<forall>r\<in>set (requests x). mode r = or_replace"
  by (simp add: requests_def view_request_def)

lemma requests_target: "\<forall>r\<in>set (requests x). target r = silver_schema x"
  by (simp add: requests_def view_request_def)

lemma script_calls_cases:
  "calls (snd (script p environ (start w))) = [] \<and> (connect p \<noteq> None \<or> environ ''environment'' = None)
   \<or> (\<exists>x n. connect p = None \<and> environ ''environment'' = Some x \<and> 0 < n \<and> n \<le> length (requests x)
        \<and> calls (snd (script p environ (start w))) = take n (requests x))"
proof (cases "connect p")
  case (Some e)
  then show ?thesis by (simp add: script_def start_def)
next
  case None
  show ?thesis
  proof (cases "environ ''environment''")
    case N: None
    with None show ?thesis by (simp add: script_def start_def)
  next
    case (Some x)
    have ne: "requests x \<noteq> []" by (simp add: requests_def)
    from issue_calls_prefix [of "requests x" p "start w"] ne obtain n where
      "0 < n" "n \<le> length (requests x)"
      "calls (snd (issue p (requests x) (start w))) = take n (requests x)"
      by (auto simp add: start_def)
    with None Some script_issue [where p = p and environ = environ and x = x and s = "start w"]
    show ?thesis by auto
  qed
qed

lemma script_calls_subset:
  "environ ''environment'' = Some x \<Longrightarrow>
   set (calls (snd (script p environ (start w)))) \<subseteq> set (requests x)"
  using script_calls_cases [of p environ w] by (auto dest: in_set_takeD)

text \<open>
  C1. The environment variable \<open>environment\<close> selects the schema the script writes to:
  when it holds \<open>x\<close>, every create request of a run goes to the schema \<open>silver\<close> of
  the database \<open>quickstart_x\<close>, and different values select different schemas.
\<close>

theorem schema_selected_by_environment:
  assumes "environ ''environment'' = Some x"
  shows "(\<forall>r\<in>set (calls (snd (script p environ (start w)))).
            database (target r) = ''quickstart_'' @ x \<and> schema (target r) = ''silver'')
         \<and> (\<forall>y. silver_schema y = silver_schema x \<longrightarrow> y = x)"
proof -
  have "\<forall>r\<in>set (calls (snd (script p environ (start w)))). target r = silver_schema x"
    using assms script_calls_subset [where environ = environ and x = x and p = p and w = w]
      requests_target [of x] by blast
  then show ?thesis by (simp add: silver_schema_def)
qed

lemma script_accepting:
  "environ ''environment'' = Some x \<Longrightarrow>
   fst (script accepting environ s) = Inr () \<and>
   calls (snd (script accepting environ s)) = calls s @ requests x"
proof -
  assume e: "environ ''environment'' = Some x"
  have c: "connect accepting = None" by (simp add: accepting_def)
  have "\<forall>r\<in>set (requests x). rejects accepting r = (\<lambda>w. None) \<and> mode r = or_replace"
    using requests_mode [of x] by (simp add: accepting_def)
  from issue_accepted [OF this, of s] c e
    script_issue [where p = accepting and environ = environ and x = x and s = s]
  show ?thesis by simp
qed

theorem schema_selected_by_environment_witness:
  "dev ''environment'' = Some ''dev''
   \<and> length (calls (snd (script accepting dev (start Map.empty)))) = 8
   \<and> list_all (\<lambda>r. database (target r) = ''quickstart_dev'' \<and> schema (target r) = ''silver'')
        (calls (snd (script accepting dev (start Map.empty))))"
proof -
  have e: "dev ''environment'' = Some ''dev''" by (simp add: dev_def)
  have "length (calls (snd (script accepting dev (start Map.empty)))) = 8"
    using e script_accepting [where environ = dev and x = "''dev''" and s = "start Map.empty"]
    by (simp add: start_def requests_def pipeline_def)
  with e schema_selected_by_environment
    [where environ = dev and x = "''dev''" and p = accepting and w = Map.empty]
  show ?thesis by (simp add: list_all_iff)
qed

section \<open>Runs of the script\<close>

lemma requests_objects: "map object_id (requests x) = script_objects x"
  by (simp add: requests_def script_objects_def pipeline_def view_request_def object_id_def
      map_city_to_airport_def flight_emissions_def flight_punctuality_def flights_from_home_def
      weather_forecast_def major_us_cities_def zip_codes_in_city_def
      weather_joined_with_major_cities_def)

lemma requests_distinct: "distinct (map object_id (requests x))"
  unfolding requests_objects by (simp add: script_objects_def)

lemma no_function_among_views:
  "filter is_function (map payload (take m (map (view_request sch) vs))) = []"
proof (induction vs arbitrary: m)
  case Nil
  then show ?case by simp
next
  case (Cons v vs)
  show ?case
  proof (cases m)
    case 0
    then show ?thesis by simp
  next
    case (Suc k)
    with Cons.IH [of k] show ?thesis by (simp add: view_request_def)
  qed
qed

lemma functions_of_prefix:
  assumes "0 < n"
  shows "filter is_function (map payload (take n (requests x))) = [FunctionObject map_city_to_airport]"
proof (cases n)
  case 0
  with assms show ?thesis by simp
next
  case (Suc k)
  then show ?thesis
    using no_function_among_views [of k "silver_schema x" pipeline] by (simp add: requests_def)
qed

text \<open>
  C4. The script declares exactly one user-defined function: the function requests of
  a run are the single request for \<open>map_city_to_airport\<close> (none when no session or no
  environment variable is there), whose name is \<open>get_city_for_airport\<close>, whose one
  argument is \<open>iata\<close> of type VARCHAR and whose return type is VARCHAR.
\<close>

theorem one_function_declared:
  "filter is_function (map payload (calls (snd (script p environ (start w))))) =
     (if connect p = None \<and> environ ''environment'' \<noteq> None
      then [FunctionObject map_city_to_airport] else [])
   \<and> udf_name map_city_to_airport = ''get_city_for_airport''
   \<and> arguments map_city_to_airport = [\<lparr>arg_name = ''iata'', arg_datatype = ''VARCHAR''\<rparr>]
   \<and> return_type map_city_to_airport = \<lparr>ret_datatype = ''VARCHAR''\<rparr>"
proof -
  have "filter is_function (map payload (calls (snd (script p environ (start w))))) =
     (if connect p = None \<and> environ ''environment'' \<noteq> None
      then [FunctionObject map_city_to_airport] else [])"
    using script_calls_cases [of p environ w] by (auto simp add: functions_of_prefix)
  then show ?thesis by (simp add: map_city_to_airport_def)
qed

lemma script_calls_requests:
  assumes "r \<in> set (calls (snd (script p environ (start w))))"
  shows "\<exists>x. environ ''environment'' = Some x \<and> r \<in> set (requests x)"
proof -
  from script_calls_cases [of p environ w] assms obtain x n where
    "environ ''environment'' = Some x" "calls (snd (script p environ (start w))) = take n (requests x)"
    by auto
  with assms have "environ ''environment'' = Some x \<and> r \<in> set (requests x)"
    by (metis in_set_takeD)
  then show ?thesis by blast
qed

lemma script_frame:
  assumes "run p environ w k \<noteq> w k"
  shows "\<exists>x. environ ''environment'' = Some x \<and> k \<in> set (script_objects x)"
proof (cases "connect p")
  case (Some e)
  with assms show ?thesis by (simp add: run_def script_def start_def)
next
  case None
  show ?thesis
  proof (cases "environ ''environment''")
    case N: None
    with None assms show ?thesis by (simp add: run_def script_def start_def)
  next
    case (Some x)
    have r: "run p environ w = objects (snd (issue p (requests x) (start w)))"
      using None Some script_issue [where p = p and environ = environ and x = x and s = "start w"]
      by (simp add: run_def)
    have "k \<in> set (map object_id (requests x))"
    proof (rule ccontr)
      assume "k \<notin> set (map object_id (requests x))"
      then have "\<forall>r\<in>set (requests x). object_id r \<noteq> k" by auto
      then have "objects (snd (issue p (requests x) (start w))) k = objects (start w) k"
        by (rule issue_frame)
      with r assms show False by (simp add: start_def)
    qed
    with Some show ?thesis by (simp add: requests_objects)
  qed
qed

lemma script_modes: "\<forall>r\<in>set (calls (snd (script p environ (start w)))). mode r = or_replace"
proof
  fix r assume "r \<in> set (calls (snd (script p environ (start w))))"
  then obtain x where "r \<in> set (requests x)" using script_calls_requests by blast
  with requests_mode [of x] show "mode r = or_replace" by simp
qed

text \<open>
  C5. Every request of a run has the mode \<open>or_replace\<close>, and a run changes no object of
  the warehouse other than the function and the seven views of \<open>script_objects\<close>.
\<close>

theorem only_creates_or_replaces:
  "(\<forall>r\<in>set (calls (snd (script p environ (start w)))). mode r = or_replace)
   \<and> (\<forall>k. run p environ w k \<noteq> w k \<longrightarrow>
          (\<exists>x. environ ''environment'' = Some x \<and> k \<in> set (script_objects x)))"
  using script_modes [of p environ w] script_frame [of p environ w] by blast

theorem only_creates_or_replaces_witness:
  "calls (snd (script accepting dev (start [other_view \<mapsto> ViewObject attractions]))) \<noteq> []
   \<and> list_all (\<lambda>r. mode r = or_replace)
        (calls (snd (script accepting dev (start [other_view \<mapsto> ViewObject attractions]))))
   \<and> run accepting dev [other_view \<mapsto> ViewObject attractions] other_view = Some (ViewObject attractions)"
proof -
  let ?w = "[other_view \<mapsto> ViewObject attractions]"
  have e: "dev ''environment'' = Some ''dev''" by (simp add: dev_def)
  have x: "\<And>x. dev ''environment'' = Some x \<Longrightarrow> x = ''dev''" by (simp add: dev_def)
  have c: "calls (snd (script accepting dev (start ?w))) \<noteq> []"
    using e script_accepting [where environ = dev and x = "''dev''" and s = "start ?w"]
    by (simp add: start_def requests_def)
  have n: "other_view \<notin> set (script_objects ''dev'')"
    by (simp add: script_objects_def other_view_def)
  have "run accepting dev ?w other_view = ?w other_view"
    using only_creates_or_replaces [of accepting dev ?w] n x by blast
  with c only_creates_or_replaces [of accepting dev ?w] show ?thesis
    by (simp add: list_all_iff)
qed

lemma create_rejected:
  "mode r = or_replace \<Longrightarrow> fst (create p r s) = Inl e \<longleftrightarrow> rejects p r (objects s) = Some e"
  by (simp add: create_or_replace split: option.splits)

lemma issue_raises_objects:
  assumes "rs = dn @ r # rest" and "issue p dn s = (Inr (), mid)" and "fst (create p r mid) = Inl e"
  shows "fst (issue p rs s) = Inl e \<and> objects (snd (issue p rs s)) = objects mid"
proof -
  obtain s' where c: "create p r mid = (Inl e, s')" using assms(3) by (metis prod.collapse)
  have "objects s' = objects mid" using create_raises [of p r mid e] assms(3) c by simp
  with assms(1,2) c show ?thesis by (simp add: issue_append)
qed

lemma issue_again:
  assumes d: "distinct (map object_id rs)"
    and m: "\<forall>r\<in>set rs. mode r = or_replace"
    and o: "objects s2 = objects (snd (issue p rs s))"
  shows "objects (snd (issue p rs s2)) = objects s2"
proof (cases "fst (issue p rs s)")
  case (Inr u)
  then have "issue p rs s = (Inr u, snd (issue p rs s))" by (metis prod.collapse)
  from issue_done [OF this d m] o
  have "\<forall>r\<in>set rs. mode r = or_replace \<and> objects s2 (object_id r) = Some (payload r)"
    using m by simp
  then show ?thesis by (rule issue_stable)
next
  case (Inl e)
  then obtain dn r rest mid where rs: "rs = dn @ r # rest"
    and i: "issue p dn s = (Inr (), mid)" and c: "fst (create p r mid) = Inl e"
    using issue_raises [of p rs s e] by blast
  have om: "objects s2 = objects mid" using issue_raises_objects [OF rs i c] o by simp
  have dd: "distinct (map object_id dn)" using d rs by simp
  have md: "\<forall>q\<in>set dn. mode q = or_replace" using m rs by simp
  have mr: "mode r = or_replace" using m rs by simp
  have st: "\<forall>q\<in>set dn. mode q = or_replace \<and> objects s2 (object_id q) = Some (payload q)"
    using issue_done [OF i dd md] md om by simp
  have keep: "objects (snd (issue p dn s2)) = objects s2" using st by (rule issue_stable)
  show ?thesis
  proof (cases "issue p dn s2")
    case (Pair res s3)
    with keep have o3: "objects s3 = objects s2" by simp
    show ?thesis
    proof (cases res)
      case (Inl e')
      with Pair o3 rs show ?thesis by (simp add: issue_append)
    next
      case (Inr u)
      have "rejects p r (objects s3) = Some e"
        using c mr o3 om by (simp add: create_rejected)
      with mr have "fst (create p r s3) = Inl e" by (simp add: create_rejected)
      moreover have "issue p dn s2 = (Inr (), s3)" using Pair Inr by simp
      ultimately have "objects (snd (issue p rs s2)) = objects s3"
        using issue_raises_objects [where rs = rs and dn = dn and r = r and rest = rest
            and p = p and s = s2 and mid = s3 and e = e] rs by simp
      with o3 show ?thesis by simp
    qed
  qed
qed

lemma issue_after_complete:
  assumes d: "distinct (map object_id rs)"
    and m: "\<forall>r\<in>set rs. mode r = or_replace"
    and f: "fst (issue p rs s) = Inr ()"
    and o: "objects s2 = objects (snd (issue p rs s))"
  shows "objects (snd (issue p' rs s2)) = objects s2"
proof -
  from f have "issue p rs s = (Inr (), snd (issue p rs s))" by (metis prod.collapse)
  from issue_done [OF this d m] o
  have "\<forall>r\<in>set rs. mode r = or_replace \<and> objects s2 (object_id r) = Some (payload r)"
    using m by simp
  then show ?thesis by (rule issue_stable)
qed

lemma run_issue:
  assumes "connect p = None" and "environ ''environment'' = Some x"
  shows "run p environ w = objects (snd (issue p (requests x) (start w)))"
  using assms script_issue [where p = p and environ = environ and x = x and s = "start w"]
  by (simp add: run_def)

lemma run_no_session: "connect p = Some e \<Longrightarrow> run p environ w = w"
  by (simp add: run_def script_def start_def)

lemma run_no_environment: "environ ''environment'' = None \<Longrightarrow> run p environ w = w"
  by (simp add: run_def script_def start_def split: option.splits)

lemma run_again: "run p environ (run p environ w) = run p environ w"
proof (cases "connect p")
  case (Some e)
  then show ?thesis by (simp add: run_no_session)
next
  case None
  show ?thesis
  proof (cases "environ ''environment''")
    case N: None
    then show ?thesis by (simp add: run_no_environment)
  next
    case (Some x)
    have ri: "\<And>v. run p environ v = objects (snd (issue p (requests x) (start v)))"
      using None Some run_issue [where p = p and environ = environ and x = x] by simp
    have "objects (snd (issue p (requests x) (start (run p environ w)))) = objects (start (run p environ w))"
      by (rule issue_again [OF requests_distinct requests_mode, where s = "start w"])
        (simp add: start_def ri)
    then show ?thesis by (simp add: ri [of "run p environ w"] start_def)
  qed
qed

lemma run_after_complete:
  assumes "fst (script p environ (start w)) = Inr ()"
  shows "run p' environ (run p environ w) = run p environ w"
proof -
  from assms have c: "connect p = None" by (auto simp add: script_def split: option.splits)
  from assms c obtain x where e: "environ ''environment'' = Some x"
    by (cases "environ ''environment''") (auto simp add: script_def)
  have f: "fst (issue p (requests x) (start w)) = Inr ()"
    using assms c e script_issue [where p = p and environ = environ and x = x and s = "start w"]
    by simp
  show ?thesis
  proof (cases "connect p'")
    case (Some e')
    then show ?thesis by (simp add: run_no_session)
  next
    case None
    have ri: "run p environ w = objects (snd (issue p (requests x) (start w)))"
      using c e run_issue [where p = p and environ = environ and x = x] by simp
    have ri': "\<And>v. run p' environ v = objects (snd (issue p' (requests x) (start v)))"
      using None e run_issue [where p = p' and environ = environ and x = x] by simp
    have "objects (snd (issue p' (requests x) (start (run p environ w)))) = objects (start (run p environ w))"
      by (rule issue_after_complete [OF requests_distinct requests_mode f])
        (simp add: start_def ri)
    then show ?thesis by (simp add: ri' [of "run p environ w"] start_def)
  qed
qed

text \<open>
  C6. Replaying the script is idempotent: a second run from the warehouse that a first
  run left yields that warehouse again, against the same service whatever the first
  run's outcome, and against any service once the first run has completed.
\<close>

theorem replay_idempotent:
  "run p environ (run p environ w) = run p environ w
   \<and> (fst (script p environ (start w)) = Inr () \<longrightarrow>
        run p' environ (run p environ w) = run p environ w)"
  using run_again [of p environ w] run_after_complete [of p environ w p'] by blast

lemma run_accepting_objects:
  assumes "environ ''environment'' = Some x" and "r \<in> set (requests x)"
  shows "run accepting environ w (object_id r) = Some (payload r)"
proof -
  have c: "connect accepting = None" by (simp add: accepting_def)
  have f: "fst (issue accepting (requests x) (start w)) = Inr ()"
    using assms(1) c script_accepting [where environ = environ and x = x and s = "start w"]
      script_issue [where p = accepting and environ = environ and x = x and s = "start w"]
    by simp
  then have "issue accepting (requests x) (start w) = (Inr (), snd (issue accepting (requests x) (start w)))"
    by (metis prod.collapse)
  from issue_done [OF this requests_distinct requests_mode] assms(2)
  have "objects (snd (issue accepting (requests x) (start w))) (object_id r) = Some (payload r)"
    by blast
  then show ?thesis
    using assms(1) c run_issue [where p = accepting and environ = environ and x = x and w = w]
    by simp
qed

theorem replay_idempotent_witness:
  "fst (script accepting dev (start Map.empty)) = Inr ()
   \<and> run accepting dev Map.empty (silver_schema ''dev'', ViewKey ''flight_emissions'')
       = Some (ViewObject flight_emissions)
   \<and> run failing dev (run accepting dev Map.empty) = run accepting dev Map.empty"
proof -
  have e: "dev ''environment'' = Some ''dev''" by (simp add: dev_def)
  have f: "fst (script accepting dev (start Map.empty)) = Inr ()"
    using e script_accepting [where environ = dev and x = "''dev''" and s = "start Map.empty"]
    by simp
  have "view_request (silver_schema ''dev'') flight_emissions \<in> set (requests ''dev'')"
    by (simp add: requests_def pipeline_def)
  from run_accepting_objects [where environ = dev and x = "''dev''" and w = Map.empty, OF e this]
  have o: "run accepting dev Map.empty (silver_schema ''dev'', ViewKey ''flight_emissions'')
       = Some (ViewObject flight_emissions)"
    by (simp add: object_id_def view_request_def flight_emissions_def)
  from f o replay_idempotent [of accepting dev Map.empty failing] show ?thesis by simp
qed

lemma script_raises_iff:
  "fst (script p environ s) = Inl e \<longleftrightarrow>
     connect p = Some e
   \<or> connect p = None \<and> environ ''environment'' = None \<and> e = KeyError (StrKey ''environment'')
   \<or> connect p = None \<and> (\<exists>x done r rest mid. environ ''environment'' = Some x
        \<and> requests x = done @ r # rest \<and> issue p done s = (Inr (), mid)
        \<and> rejects p r (objects mid) = Some e)"
proof (cases "connect p")
  case (Some e')
  then show ?thesis by (auto simp add: script_def)
next
  case None
  show ?thesis
  proof (cases "environ ''environment''")
    case N: None
    with None show ?thesis by (auto simp add: script_def)
  next
    case (Some x)
    have s: "script p environ s = issue p (requests x) s"
      using None Some script_issue [where p = p and environ = environ and x = x and s = s] by simp
    have "fst (issue p (requests x) s) = Inl e \<longleftrightarrow>
      (\<exists>done r rest mid. requests x = done @ r # rest \<and> issue p done s = (Inr (), mid)
         \<and> rejects p r (objects mid) = Some e)"
      (is "?L \<longleftrightarrow> ?R")
    proof
      assume ?L
      then obtain dn r rest mid where d: "requests x = dn @ r # rest"
        and i: "issue p dn s = (Inr (), mid)" and c: "fst (create p r mid) = Inl e"
        using issue_raises [of p "requests x" s e] by blast
      have "mode r = or_replace" using requests_mode [of x] d by simp
      with c have "rejects p r (objects mid) = Some e" by (simp add: create_rejected)
      with d i show ?R by blast
    next
      assume ?R
      then obtain dn r rest mid where d: "requests x = dn @ r # rest"
        and i: "issue p dn s = (Inr (), mid)" and c: "rejects p r (objects mid) = Some e"
        by blast
      have "mode r = or_replace" using requests_mode [of x] d by simp
      with c have "fst (create p r mid) = Inl e" by (simp add: create_rejected)
      with d i show ?L using issue_raises [of p "requests x" s e] by blast
    qed
    with None Some s show ?thesis by simp
  qed
qed

lemma script_raises_objects:
  assumes c: "connect p = None" and e: "environ ''environment'' = Some x"
    and d: "requests x = dn @ r # rest" and i: "issue p dn s = (Inr (), mid)"
    and j: "rejects p r (objects mid) = Some e'"
  shows "objects (snd (script p environ s)) = objects mid
    \<and> (\<forall>q\<in>set dn. objects (snd (script p environ s)) (object_id q) = Some (payload q))"
proof -
  have s: "script p environ s = issue p (requests x) s"
    using c e script_issue [where p = p and environ = environ and x = x and s = s] by simp
  have "mode r = or_replace" using requests_mode [of x] d by simp
  with j have f: "fst (create p r mid) = Inl e'" by (simp add: create_rejected)
  have o: "objects (snd (script p environ s)) = objects mid"
    using issue_raises_objects [OF d i f] s by simp
  have dd: "distinct (map object_id dn)" using requests_distinct [of x] d by simp
  have md: "\<forall>q\<in>set dn. mode q = or_replace" using requests_mode [of x] d by simp
  from issue_done [OF i dd md] o show ?thesis by simp
qed

text \<open>
  C7. The script handles no error: a run raises \<open>e\<close> exactly when the session raises
  \<open>e\<close>, or the environment variable is missing (the \<open>KeyError\<close>), or the service rejects
  a request with \<open>e\<close> after accepting the requests before it; and then the objects of
  the requests before it are in the warehouse, which is as the last accepted request
  left it.
\<close>

theorem errors_propagate:
  "(fst (script p environ s) = Inl e \<longleftrightarrow>
       connect p = Some e
     \<or> connect p = None \<and> environ ''environment'' = None \<and> e = KeyError (StrKey ''environment'')
     \<or> connect p = None \<and> (\<exists>x done r rest mid. environ ''environment'' = Some x
          \<and> requests x = done @ r # rest \<and> issue p done s = (Inr (), mid)
          \<and> rejects p r (objects mid) = Some e))
   \<and> (\<forall>x done r rest mid. connect p = None \<and> environ ''environment'' = Some x
          \<and> requests x = done @ r # rest \<and> issue p done s = (Inr (), mid)
          \<and> rejects p r (objects mid) = Some e
        \<longrightarrow> objects (snd (script p environ s)) = objects mid
          \<and> (\<forall>q\<in>set done. objects (snd (script p environ s)) (object_id q) = Some (payload q)))"
proof -
  have "\<forall>x done r rest mid. connect p = None \<and> environ ''environment'' = Some x
          \<and> requests x = done @ r # rest \<and> issue p done s = (Inr (), mid)
          \<and> rejects p r (objects mid) = Some e
        \<longrightarrow> objects (snd (script p environ s)) = objects mid
          \<and> (\<forall>q\<in>set done. objects (snd (script p environ s)) (object_id q) = Some (payload q))"
    using script_raises_objects [where p = p and environ = environ and s = s and e' = e]
    by blast
  with script_raises_iff [of p environ s e] show ?thesis by blast
qed

theorem errors_propagate_witness:
  "fst (script failing dev (start Map.empty)) = Inl (PlatformError ''SQL compilation error'')
   \<and> run failing dev Map.empty (silver_schema ''dev'', ViewKey ''flight_punctuality'')
       = Some (ViewObject flight_punctuality)
   \<and> run failing dev Map.empty (silver_schema ''dev'', ViewKey ''flights_from_home'') = None"
proof -
  let ?sch = "silver_schema ''dev''"
  let ?e = "PlatformError ''SQL compilation error''"
  define dn where "dn = [\<lparr>target = ?sch, payload = FunctionObject map_city_to_airport, mode = or_replace\<rparr>,
              view_request ?sch flight_emissions, view_request ?sch flight_punctuality]"
  define r where "r = view_request ?sch flights_from_home"
  define rest where "rest = map (view_request ?sch)
     [weather_forecast, major_us_cities, zip_codes_in_city, weather_joined_with_major_cities]"
  define mid where "mid = snd (issue failing dn (start Map.empty))"
  define final where "final = objects (snd (script failing dev (start Map.empty)))"
  have c: "connect failing = None" by (simp add: failing_def)
  have e: "dev ''environment'' = Some ''dev''" by (simp add: dev_def)
  have d: "requests ''dev'' = dn @ r # rest"
    by (simp add: requests_def pipeline_def dn_def r_def rest_def)
  have "\<forall>q\<in>set dn. rejects failing q = (\<lambda>w. None) \<and> mode q = or_replace"
    by (simp add: dn_def failing_def view_request_def map_city_to_airport_def flight_emissions_def
        flight_punctuality_def)
  from issue_accepted [OF this, of "start Map.empty"]
  have i: "issue failing dn (start Map.empty) = (Inr (), mid)"
    unfolding mid_def by (metis prod.collapse)
  have j: "rejects failing r (objects mid) = Some ?e"
    by (simp add: r_def failing_def view_request_def flights_from_home_def)
  have "\<forall>q\<in>set dn. object_id q \<noteq> (?sch, ViewKey ''flights_from_home'')"
    by (simp add: dn_def object_id_def view_request_def flight_emissions_def flight_punctuality_def)
  then have "objects (snd (issue failing dn (start Map.empty))) (?sch, ViewKey ''flights_from_home'')
      = objects (start Map.empty) (?sch, ViewKey ''flights_from_home'')"
    by (rule issue_frame)
  then have n: "objects mid (?sch, ViewKey ''flights_from_home'') = None"
    by (simp add: start_def mid_def)
  have m: "view_request ?sch flight_punctuality \<in> set dn" by (simp add: dn_def)
  have k: "object_id (view_request ?sch flight_punctuality) = (?sch, ViewKey ''flight_punctuality'')"
    by (simp add: object_id_def view_request_def flight_punctuality_def)
  have p: "payload (view_request ?sch flight_punctuality) = ViewObject flight_punctuality"
    by (simp add: view_request_def)
  from errors_propagate [of failing dev "start Map.empty" ?e] c e d i j
  have f: "fst (script failing dev (start Map.empty)) = Inl ?e" by blast
  from errors_propagate [of failing dev "start Map.empty" ?e] c e d i j
  have "final = objects mid \<and> (\<forall>q\<in>set dn. final (object_id q) = Some (payload q))"
    unfolding final_def by blast
  with m have "final = objects mid"
    and "final (object_id (view_request ?sch flight_punctuality))
      = Some (payload (view_request ?sch flight_punctuality))" by blast+
  with n k p have "final (?sch, ViewKey ''flight_punctuality'') = Some (ViewObject flight_punctuality)"
    and "final (?sch, ViewKey ''flights_from_home'') = None" by simp_all
  with f show ?thesis unfolding final_def run_def by blast
qed

end
